theory Spec2Isabelle
  imports Complex_Main "HOL-Library.Word"
begin

unbundle bit_operations_syntax

section \<open>Data model of the table view (tableview.go)\<close>

text \<open>
  Go's \<open>int\<close> and \<open>uintptr\<close> are 64-bit on the Windows target the widget is built for;
  \<open>int32\<close> is the type of the list view's column indices. All three are words, so
  \<open>+\<close> and \<open>-\<close> wrap as in Go, and the signed comparisons of the source are
  \<open><s\<close> and \<open>\<le>s\<close>. A conversion \<open>uintptr(i)\<close> or \<open>int(r)\<close> keeps the
  64 bits, so it does not show in the model.
\<close>

type_synonym go_int = "64 word"
type_synonym int32 = "32 word"
type_synonym uintptr = "64 word"

datatype SortOrder = SortAscending | SortDescending

text \<open>The fields of \<open>TableViewColumn\<close> that \<open>tableview.go\<close> reads and writes.\<close>

record TableViewColumn =
  name :: string
  titleOverride :: string
  width :: go_int
  format :: string
  precision :: go_int
  frozen :: bool
  visible :: bool

subsection \<open>The column index mappings\<close>

text \<open>
  \<open>fromLVColIdx\<close>, lines 730-744: the loop over \<open>tv.columns.items\<close>, with the loop
  index \<open>i\<close> and the \<open>int32\<close> counter \<open>idx\<close> as arguments.
\<close>

fun fromLVColIdx_loop :: "TableViewColumn list \<Rightarrow> bool \<Rightarrow> int32 \<Rightarrow> int32 \<Rightarrow> go_int \<Rightarrow> go_int" where
  "fromLVColIdx_loop [] fr index idx i = - 1"
| "fromLVColIdx_loop (tvc # items) fr index idx i =
     (if fr = frozen tvc \<and> visible tvc then
        (if idx = index then i
         else fromLVColIdx_loop items fr index (idx + 1) (i + 1))
      else fromLVColIdx_loop items fr index idx (i + 1))"

definition fromLVColIdx :: "TableViewColumn list \<Rightarrow> bool \<Rightarrow> int32 \<Rightarrow> go_int" where
  "fromLVColIdx items fr index = fromLVColIdx_loop items fr index 0 0"

text \<open>\<open>toLVColIdx\<close>, lines 746-760: the test is on \<open>tvc.visible\<close> alone.\<close>

fun toLVColIdx_loop :: "TableViewColumn list \<Rightarrow> go_int \<Rightarrow> int32 \<Rightarrow> go_int \<Rightarrow> int32" where
  "toLVColIdx_loop [] index idx i = - 1"
| "toLVColIdx_loop (tvc # items) index idx i =
     (if visible tvc then
        (if i = index then idx
         else toLVColIdx_loop items index (idx + 1) (i + 1))
      else toLVColIdx_loop items index idx (i + 1))"

definition toLVColIdx :: "TableViewColumn list \<Rightarrow> go_int \<Rightarrow> int32" where
  "toLVColIdx items index = toLVColIdx_loop items index 0 0"

text \<open>\<open>visibleFrozenColumnCount\<close>, \<open>visibleColumnCount\<close> and \<open>visibleColumns\<close>, lines 762-796.\<close>

fun visibleFrozenColumnCount_loop :: "TableViewColumn list \<Rightarrow> go_int \<Rightarrow> go_int" where
  "visibleFrozenColumnCount_loop [] count = count"
| "visibleFrozenColumnCount_loop (tvc # items) count =
     visibleFrozenColumnCount_loop items (if frozen tvc \<and> visible tvc then count + 1 else count)"

definition visibleFrozenColumnCount :: "TableViewColumn list \<Rightarrow> go_int" where
  "visibleFrozenColumnCount items = visibleFrozenColumnCount_loop items 0"

fun visibleColumnCount_loop :: "TableViewColumn list \<Rightarrow> go_int \<Rightarrow> go_int" where
  "visibleColumnCount_loop [] count = count"
| "visibleColumnCount_loop (tvc # items) count =
     visibleColumnCount_loop items (if visible tvc then count + 1 else count)"

definition visibleColumnCount :: "TableViewColumn list \<Rightarrow> go_int" where
  "visibleColumnCount items = visibleColumnCount_loop items 0"

fun visibleColumns :: "TableViewColumn list \<Rightarrow> TableViewColumn list" where
  "visibleColumns [] = []"
| "visibleColumns (tvc # items) =
     (if visible tvc then tvc # visibleColumns items else visibleColumns items)"

text \<open>
  The rank the specification gives to a visible column: the number of visible columns of
  its own pane before it in logical order. It is not a function of the source; the
  claim about the round trip is compared with it.
\<close>

definition paneRank :: "TableViewColumn list \<Rightarrow> nat \<Rightarrow> nat" where
  "paneRank items n =
     length (filter (\<lambda>tvc. frozen tvc = frozen (items ! n) \<and> visible tvc) (take n items))"

definition visibleRank :: "TableViewColumn list \<Rightarrow> nat \<Rightarrow> nat" where
  "visibleRank items n = length (filter visible (take n items))"

subsection \<open>Errors, panics and the native controls\<close>

text \<open>
  An \<open>error\<close> value is what a method returns in Go: \<open>newError msg\<close> is walk's own error
  for a failed native request; \<open>ModelError\<close> stands for any error value made outside
  the widget (by the model). A panic unwinds the call: a function that can panic returns
  \<open>Inl\<close> of it. \<open>OutOfMemory\<close> is the runtime's fatal error for an allocation it has
  no memory for; it ends the program as an unrecovered panic does.
\<close>

datatype error = newError string | ModelError string

datatype go_panic =
    MakeSliceLenOutOfRange
  | OutOfMemory
  | NilDereference
  | StringWithNUL
  | SliceBoundsOutOfRange
  | IndexOutOfRange

datatype hwnd = hWnd | hwndFrozen | hwndNormal

text \<open>
  The requests the widget sends to Windows, with the arguments that matter:
  \<open>LVM_SETITEMSTATE h i s\<close> is \<open>SendMessage(h, LVM_SETITEMSTATE, i, &lvi)\<close> with
  \<open>lvi.StateMask = LVIS_FOCUSED | LVIS_SELECTED\<close> and \<open>lvi.State = s\<close>;
  \<open>LVM_SETCOLUMNORDERARRAY h n a\<close> passes the \<open>n\<close> indices \<open>a\<close>.
\<close>

datatype native_call =
    LVM_SETITEMSTATE hwnd uintptr uintptr
  | LVM_ENSUREVISIBLE hwnd uintptr
  | LVM_GETSELECTEDCOUNT hwnd
  | LVM_GETNEXTITEM hwnd uintptr
  | LVM_SETITEMCOUNT hwnd uintptr
  | LVM_UPDATE hwnd uintptr
  | LVM_SETCOLUMNORDERARRAY hwnd uintptr "int32 list"
  | GetWindowLong_GWL_STYLE hwnd
  | InvalidateRect hwnd
  | SetTimer uintptr "32 word"
  | KillTimer uintptr
  | TVC_SetTitleOverride nat string
  | TVC_SetWidth nat go_int
  | TVC_SetVisible nat bool
  | TVC_SetFrozen nat bool

datatype event = CurrentIndexChanged | SelectedIndexesChanged

text \<open>
  What a call does to the world outside the \<open>TableView\<close> struct, in order: a native
  request, the publication of an event to its subscribers, a call of the model's
  \<open>Sort\<close>.
\<close>

datatype effect = Native native_call | Publish event | ModelSort go_int SortOrder

definition LVIS_FOCUSED :: uintptr where "LVIS_FOCUSED = 1"
definition LVIS_SELECTED :: uintptr where "LVIS_SELECTED = 2"
definition LVS_SINGLESEL :: go_int where "LVS_SINGLESEL = 4"

text \<open>Lines 35-38: the timer ids are \<open>1 + iota\<close>.\<close>

definition tableViewCurrentIndexChangedTimerId :: uintptr where
  "tableViewCurrentIndexChangedTimerId = 1"
definition tableViewSelectedIndexesChangedTimerId :: uintptr where
  "tableViewSelectedIndexesChangedTimerId = 2"

subsection \<open>Model values and the model's capabilities\<close>

text \<open>
  The dynamic types the text branch of \<open>LVN_GETDISPINFO\<close> tells apart. A float is its
  IEEE bit pattern and a \<open>time.Time\<close> an opaque instant: the widget only hands them to
  formatting functions. \<open>VBigRat None\<close> is a nil \<open>*big.Rat\<close>. \<open>VInt\<close>, \<open>VNil\<close>
  and \<open>VOther\<close> are values of types the switch does not name.
\<close>

type_synonym float32 = "32 word"
type_synonym float64 = "64 word"

datatype time = Instant int

datatype cell_value =
    VString string
  | VFloat32 float32
  | VFloat64 float64
  | VTime time
  | VBool bool
  | VBigRat "rat option"
  | VInt go_int
  | VNil
  | VOther nat

text \<open>
  The formatting functions the widget calls and does not define: \<open>FormatFloatGrouped\<close> and
  \<open>formatBigRatGrouped\<close> of walk's utilities, the conversion \<open>float64(val)\<close>,
  \<open>time.Time.Year\<close>, \<open>time.Time.Format\<close> and \<open>fmt.Sprintf\<close>, and the UTF-16
  units of a string (\<open>utf16.Encode\<close> of its runes), which \<open>syscall.StringToUTF16\<close>
  computes. They are parameters.
\<close>

record Formatters =
  FormatFloatGrouped :: "float64 \<Rightarrow> go_int \<Rightarrow> string"
  formatBigRatGrouped :: "rat option \<Rightarrow> go_int \<Rightarrow> string"
  float64_of_float32 :: "float32 \<Rightarrow> float64"
  time_Year :: "time \<Rightarrow> go_int"
  time_Format :: "time \<Rightarrow> string \<Rightarrow> string"
  fmt_Sprintf :: "string \<Rightarrow> cell_value \<Rightarrow> string"
  utf16_Encode :: "string \<Rightarrow> 16 word list"

text \<open>
  The model is an object outside the widget. The records hold the answers it gives to the
  widget's calls: \<open>Sorter_Sort col order\<close> is the error \<open>Sort(col, order)\<close> returns
  (\<open>None\<close> for nil). \<open>sorter\<close> is the result of the type assertion
  \<open>tv.model.(Sorter)\<close>.
\<close>

record Sorter =
  Sorter_ColumnSortable :: "go_int \<Rightarrow> bool"
  Sorter_SortedColumn :: go_int
  Sorter_SortOrder :: SortOrder
  Sorter_Sort :: "go_int \<Rightarrow> SortOrder \<Rightarrow> error option"

record TableModel =
  RowCount :: go_int
  Value :: "go_int \<Rightarrow> go_int \<Rightarrow> cell_value"
  sorter :: "Sorter option"

subsection \<open>The widget state\<close>

text \<open>
  The fields of \<open>TableView\<close> (lines 44-92) that the modelled methods use, and three fields
  for the world: \<open>native n c\<close> is the value Windows returns to request \<open>c\<close> when it
  is the effect number \<open>n\<close> of the run, \<open>trace\<close> lists the effects so far, and
  \<open>allocatable\<close> is the length of the longest \<open>[]int\<close> the runtime has memory for. The
  notifications a native control sends back while it handles a request are dispatches of
  their own (\<open>lvWndProc\<close>); they are not part of the request. In the same way a
  publication is recorded, and what its subscribers do is not part of it.
\<close>

record TableView =
  columns :: "TableViewColumn list"
  model :: "TableModel option"
  selectedIndexes :: "go_int list"
  prevIndex :: go_int
  currentIndex :: go_int
  inSetSelectedIndexes :: bool
  itemStateChangedEventDelay :: go_int
  delayedCurrentIndexChangedCanceled :: bool
  sortedColumnIndex :: go_int
  sortOrder :: SortOrder
  inSetCurrentIndex :: bool
  suspended :: bool
  allocatable :: go_int
  native :: "nat \<Rightarrow> native_call \<Rightarrow> uintptr"
  trace :: "effect list"

definition callNative :: "native_call \<Rightarrow> TableView \<Rightarrow> uintptr \<times> TableView" where
  "callNative c tv = (native tv (length (trace tv)) c, tv\<lparr>trace := trace tv @ [Native c]\<rparr>)"

definition publish :: "event \<Rightarrow> TableView \<Rightarrow> TableView" where
  "publish ev tv = tv\<lparr>trace := trace tv @ [Publish ev]\<rparr>"

text \<open>
  A run of requests, each checked as in \<open>if win.FALSE == win.SendMessage(...) { return
  newError(msg) }\<close>: the first request answered 0 ends the run with its error.
\<close>

fun sendEach :: "(native_call \<times> string) list \<Rightarrow> TableView \<Rightarrow> error option \<times> TableView" where
  "sendEach [] tv = (None, tv)"
| "sendEach ((c, msg) # cs) tv =
     (case callNative c tv of (r, tv') \<Rightarrow>
        if r = 0 then (Some (newError msg), tv') else sendEach cs tv')"

text \<open>
  The notifications of a trace: the publications and the timers requested for a delayed
  publication.
\<close>

fun isNotification :: "effect \<Rightarrow> bool" where
  "isNotification (Publish ev) = True"
| "isNotification (Native (SetTimer tid d)) = True"
| "isNotification e = False"

definition notifications :: "TableView \<Rightarrow> effect list" where
  "notifications tv = filter isNotification (trace tv)"

subsection \<open>Selection and current item\<close>

text \<open>\<open>MultiSelection\<close>, lines 953-961. \<open>GetWindowLong\<close> returns an \<open>int32\<close>, converted by \<open>uint\<close>.\<close>

definition MultiSelection :: "TableView \<Rightarrow> bool \<times> TableView" where
  "MultiSelection tv =
     (case callNative (GetWindowLong_GWL_STYLE hwndNormal) tv of (r, tv') \<Rightarrow>
        let style = (scast (ucast r :: int32) :: go_int) in
        if style = 0 then (False, tv') else (style AND LVS_SINGLESEL = 0, tv'))"

text \<open>\<open>publishSelectedIndexesChanged\<close>, lines 1075-1088. A failed \<open>SetTimer\<close> is only logged.\<close>

definition publishSelectedIndexesChanged :: "TableView \<Rightarrow> TableView" where
  "publishSelectedIndexesChanged tv =
     (if 0 <s itemStateChangedEventDelay tv then
        snd (callNative (SetTimer tableViewSelectedIndexesChangedTimerId
               (ucast (itemStateChangedEventDelay tv))) tv)
      else publish SelectedIndexesChanged tv)"

text \<open>
  \<open>make([]int, count)\<close>, line 1024: \<open>runtime.makeslice\<close> panics for a negative length
  and for a slice of more than \<open>maxAlloc\<close> bytes, which is \<open>2 ^ 48\<close> on 64-bit
  Windows, that is for more than \<open>2 ^ 45\<close> elements of type \<open>int\<close>. Below that the
  runtime stops the program when it has no memory for the slice.
\<close>

definition maxSliceLen :: go_int where
  "maxSliceLen = 2 ^ 45"

definition makeIntSlice :: "go_int \<Rightarrow> TableView \<Rightarrow> go_panic option" where
  "makeIntSlice count tv =
     (if count <s 0 \<or> maxSliceLen <s count then Some MakeSliceLenOutOfRange
      else if allocatable tv <s count then Some OutOfMemory
      else None)"

text \<open>
  \<open>updateSelectedIndexes\<close>, lines 1022-1046. \<open>nextSelected\<close> is the loop of lines
  1026-1030, \<open>elementsDiffer\<close> the loop of lines 1034-1039, which runs on two lists of
  one length.
\<close>

fun nextSelected :: "nat \<Rightarrow> go_int \<Rightarrow> TableView \<Rightarrow> go_int list \<times> TableView" where
  "nextSelected 0 j tv = ([], tv)"
| "nextSelected (Suc n) j tv =
     (case callNative (LVM_GETNEXTITEM hwndNormal j) tv of (j', tv') \<Rightarrow>
        case nextSelected n j' tv' of (indexes, tv'') \<Rightarrow> (j' # indexes, tv''))"

fun elementsDiffer :: "go_int list \<Rightarrow> go_int list \<Rightarrow> bool" where
  "elementsDiffer (x # xs) (y # ys) = (if x \<noteq> y then True else elementsDiffer xs ys)"
| "elementsDiffer xs ys = False"

definition updateSelectedIndexes :: "TableView \<Rightarrow> go_panic + TableView" where
  "updateSelectedIndexes tv =
     (case callNative (LVM_GETSELECTEDCOUNT hwndNormal) tv of (count, tv1) \<Rightarrow>
        case makeIntSlice count tv1 of
          Some p \<Rightarrow> Inl p
        | None \<Rightarrow>
          case nextSelected (unat count) (- 1) tv1 of (indexes, tv2) \<Rightarrow>
            let changed =
              (if length indexes \<noteq> length (selectedIndexes tv2) then True
               else elementsDiffer indexes (selectedIndexes tv2))
            in
              if changed then
                Inr (publishSelectedIndexesChanged (tv2\<lparr>selectedIndexes := indexes\<rparr>))
              else Inr tv2)"

text \<open>
  \<open>SetCurrentIndex\<close>, lines 881-942. \<open>SetCurrentIndex_requests\<close> lists the checked
  requests of lines 894-929 in their order: the two that clear every item in
  multi-selection mode (with \<open>lvi.State\<close> still 0), the two for the item, and the four
  \<open>LVM_ENSUREVISIBLE\<close>. The body runs with the guard set; the deferred function clears
  it on every return.
\<close>

definition SetCurrentIndex_requests :: "bool \<Rightarrow> go_int \<Rightarrow> (native_call \<times> string) list" where
  "SetCurrentIndex_requests multi index =
     (let lviState = (if - 1 <s index then LVIS_FOCUSED OR LVIS_SELECTED else 0) in
      (if multi then
         [(LVM_SETITEMSTATE hwndFrozen (- 1) 0, ''SendMessage(LVM_SETITEMSTATE)''),
          (LVM_SETITEMSTATE hwndNormal (- 1) 0, ''SendMessage(LVM_SETITEMSTATE)'')]
       else [])
      @ [(LVM_SETITEMSTATE hwndFrozen index lviState, ''SendMessage(LVM_SETITEMSTATE)''),
         (LVM_SETITEMSTATE hwndNormal index lviState, ''SendMessage(LVM_SETITEMSTATE)'')]
      @ (if index \<noteq> - 1 then
           [(LVM_ENSUREVISIBLE hwndFrozen index, ''SendMessage(LVM_ENSUREVISIBLE)''),
            (LVM_ENSUREVISIBLE hwndFrozen index, ''SendMessage(LVM_ENSUREVISIBLE)''),
            (LVM_ENSUREVISIBLE hwndNormal index, ''SendMessage(LVM_ENSUREVISIBLE)''),
            (LVM_ENSUREVISIBLE hwndNormal index, ''SendMessage(LVM_ENSUREVISIBLE)'')]
         else []))"

definition SetCurrentIndex_body :: "go_int \<Rightarrow> TableView \<Rightarrow> go_panic + (error option \<times> TableView)" where
  "SetCurrentIndex_body index tv =
     (case MultiSelection tv of (multi, tv1) \<Rightarrow>
        case sendEach (SetCurrentIndex_requests multi index) tv1 of
          (Some e, tv2) \<Rightarrow> Inr (Some e, tv2)
        | (None, tv2) \<Rightarrow>
            let tv3 = tv2\<lparr>currentIndex := index\<rparr>;
                tv4 = (if index = - 1 \<or> itemStateChangedEventDelay tv3 = 0
                       then publish CurrentIndexChanged tv3 else tv3)
            in
              case MultiSelection tv4 of (multi', tv5) \<Rightarrow>
                if multi' then
                  (case updateSelectedIndexes tv5 of
                     Inl p \<Rightarrow> Inl p
                   | Inr tv6 \<Rightarrow> Inr (None, tv6))
                else Inr (None, tv5))"

definition SetCurrentIndex :: "go_int \<Rightarrow> TableView \<Rightarrow> go_panic + (error option \<times> TableView)" where
  "SetCurrentIndex index tv =
     (if inSetCurrentIndex tv then Inr (None, tv)
      else
        case SetCurrentIndex_body index (tv\<lparr>inSetCurrentIndex := True\<rparr>) of
          Inl p \<Rightarrow> Inl p
        | Inr (err, tv') \<Rightarrow> Inr (err, tv'\<lparr>inSetCurrentIndex := False\<rparr>))"




text \<open>The \<open>WM_TIMER\<close> case of \<open>WndProc\<close>, lines 1848-1861.\<close>

definition WM_TIMER :: "uintptr \<Rightarrow> TableView \<Rightarrow> TableView" where
  "WM_TIMER wp tv =
     (case callNative (KillTimer wp) tv of (r, tv1) \<Rightarrow>
        if wp = tableViewCurrentIndexChangedTimerId then
          (if \<not> delayedCurrentIndexChangedCanceled tv1 then publish CurrentIndexChanged tv1
           else tv1)
        else if wp = tableViewSelectedIndexesChangedTimerId then
          publish SelectedIndexesChanged tv1
        else tv1)"

subsection \<open>The model's notifications\<close>

text \<open>\<open>setItemCount\<close>, lines 666-681.\<close>

definition setItemCount :: "TableView \<Rightarrow> error option \<times> TableView" where
  "setItemCount tv =
     (let count = (case model tv of None \<Rightarrow> 0 | Some m \<Rightarrow> RowCount m) in
      sendEach
        [(LVM_SETITEMCOUNT hwndFrozen count, ''SendMessage(LVM_SETITEMCOUNT)''),
         (LVM_SETITEMCOUNT hwndNormal count, ''SendMessage(LVM_SETITEMCOUNT)'')] tv)"

text \<open>
  \<open>Invalidate\<close>, lines 481-486. The results of the two \<open>InvalidateRect\<close> are dropped.

  Modelled from the spec: \<open>WidgetBase.Invalidate\<close> is not among the sources. By section
  7 of the specification it is a native request whose refusal is returned as an error;
  here it is the request \<open>InvalidateRect hWnd\<close>.
\<close>

definition Invalidate :: "TableView \<Rightarrow> error option \<times> TableView" where
  "Invalidate tv =
     (case callNative (InvalidateRect hwndFrozen) tv of (r1, tv1) \<Rightarrow>
        case callNative (InvalidateRect hwndNormal) tv1 of (r2, tv2) \<Rightarrow>
          sendEach [(InvalidateRect hWnd, ''InvalidateRect failed'')] tv2)"

text \<open>\<open>UpdateItem\<close>, lines 491-508. A nil model fails the type assertion.\<close>

definition modelSorter :: "TableView \<Rightarrow> Sorter option" where
  "modelSorter tv = (case model tv of None \<Rightarrow> None | Some m \<Rightarrow> sorter m)"

definition UpdateItem :: "go_int \<Rightarrow> TableView \<Rightarrow> error option \<times> TableView" where
  "UpdateItem index tv =
     (case modelSorter tv of
        Some s \<Rightarrow>
          let tv1 = tv\<lparr>trace := trace tv @ [ModelSort (Sorter_SortedColumn s) (Sorter_SortOrder s)]\<rparr>
          in (case Sorter_Sort s (Sorter_SortedColumn s) (Sorter_SortOrder s) of
                Some err \<Rightarrow> (Some err, tv1)
              | None \<Rightarrow> Invalidate tv1)
      | None \<Rightarrow>
          sendEach
            [(LVM_UPDATE hwndFrozen index, ''LVM_UPDATE''),
             (LVM_UPDATE hwndNormal index, ''LVM_UPDATE'')] tv)"

text \<open>
  The handlers \<open>attachModel\<close> attaches, lines 510-549. They drop the errors of
  \<open>setItemCount\<close> and \<open>SetCurrentIndex\<close>.
\<close>

definition rowsResetHandler :: "TableView \<Rightarrow> go_panic + TableView" where
  "rowsResetHandler tv =
     (case setItemCount tv of (e, tv1) \<Rightarrow>
        case SetCurrentIndex (- 1) tv1 of Inl p \<Rightarrow> Inl p | Inr (e', tv2) \<Rightarrow> Inr tv2)"

definition rowChangedHandler :: "go_int \<Rightarrow> TableView \<Rightarrow> TableView" where
  "rowChangedHandler row tv = snd (UpdateItem row tv)"



subsection \<open>Cell text\<close>

text \<open>Line 30: the three bytes of the check mark in UTF-8.\<close>

definition checkmark :: string where
  "checkmark = [CHR 0xE2, CHR 0x9C, CHR 0x94]"

text \<open>
  The type switch of the text branch of \<open>LVN_GETDISPINFO\<close>, lines 1528-1566, for the
  column \<open>tv.columns.items[col]\<close> and the value \<open>tv.model.Value(row, col)\<close>: the
  value of the variable \<open>text\<close> at line 1567.
\<close>

definition cellText :: "Formatters \<Rightarrow> TableViewColumn \<Rightarrow> cell_value \<Rightarrow> string" where
  "cellText fm tvc val =
     (case val of
        VString s \<Rightarrow> s
      | VFloat32 f \<Rightarrow>
          (let prec = precision tvc; prec = (if prec = 0 then 2 else prec)
           in FormatFloatGrouped fm (float64_of_float32 fm f) prec)
      | VFloat64 f \<Rightarrow>
          (let prec = precision tvc; prec = (if prec = 0 then 2 else prec)
           in FormatFloatGrouped fm f prec)
      | VTime t \<Rightarrow> (if 1601 <s time_Year fm t then time_Format fm t (format tvc) else [])
      | VBool b \<Rightarrow> (if b then checkmark else [])
      | VBigRat r \<Rightarrow>
          (let prec = precision tvc; prec = (if prec = 0 then 2 else prec)
           in formatBigRatGrouped fm r prec)
      | _ \<Rightarrow> fmt_Sprintf fm (format tvc) val)"

text \<open>
  \<open>syscall.StringToUTF16\<close>, line 1568: it panics when the string holds a NUL byte, and
  otherwise returns the UTF-16 units of the string followed by a terminating 0.
\<close>

definition StringToUTF16 :: "Formatters \<Rightarrow> string \<Rightarrow> go_panic + 16 word list" where
  "StringToUTF16 fm s =
     (if CHR 0x00 \<in> set s then Inl StringWithNUL else Inr (utf16_Encode fm s @ [0]))"

text \<open>
  Modelled from the spec: \<open>mini\<close> of walk's utilities is not among the sources and the
  specification does not describe it; it is taken to be the smaller of its two \<open>int\<close>
  arguments, which its name and its use at line 1570 say.
\<close>

definition mini :: "go_int \<Rightarrow> go_int \<Rightarrow> go_int" where
  "mini a b = (if a <s b then a else b)"

text \<open>
  Lines 1569-1572, with \<open>buf\<close> the \<open>[264]uint16\<close> at \<open>di.Item.PszText\<close>:
  \<open>utf16[:max]\<close> panics for a negative \<open>max\<close>, \<open>copy\<close> fills at most the 264
  units of \<open>buf\<close>, and \<open>(*buf)[max-1] = 0\<close> panics when \<open>max - 1\<close> is no index of
  \<open>buf\<close>. The result is what the two lines have written: the first \<open>max\<close> units of
  \<open>buf\<close>.
\<close>

definition copyText :: "16 word list \<Rightarrow> int32 \<Rightarrow> go_panic + 16 word list" where
  "copyText utf16 cchTextMax =
     (let max = mini (of_nat (length utf16)) (scast cchTextMax) in
      if max <s 0 then Inl SliceBoundsOutOfRange
      else
        let copied = take (min 264 (unat max)) utf16 in
        if max - 1 <s 0 \<or> 264 \<le>s max - 1 then Inl IndexOutOfRange
        else Inr (copied[unat (max - 1) := 0]))"

text \<open>
  The text branch of \<open>LVN_GETDISPINFO\<close>, lines 1521-1573: the column is found from the
  pane and the sub-item, and an unmapped sub-item leaves the switch with nothing written
  (\<open>Inr None\<close>). \<open>col\<close> is an index the loop of \<open>fromLVColIdx\<close> stopped at, so it
  is within the list. The result is what the control receives in its buffer.
\<close>

definition dispInfoText :: "Formatters \<Rightarrow> TableView \<Rightarrow> hwnd \<Rightarrow> go_int \<Rightarrow> int32 \<Rightarrow> int32 \<Rightarrow> go_panic + 16 word list option" where
  "dispInfoText fm tv h row iSubItem cchTextMax =
     (let col = fromLVColIdx (columns tv) (h = hwndFrozen) iSubItem in
      if col = - 1 then Inr None
      else
        case model tv of
          None \<Rightarrow> Inl NilDereference
        | Some m \<Rightarrow>
            (case StringToUTF16 fm (cellText fm (columns tv ! unat col) (Value m row col)) of
               Inl p \<Rightarrow> Inl p
             | Inr utf16 \<Rightarrow>
                 (case copyText utf16 cchTextMax of
                    Inl p \<Rightarrow> Inl p
                  | Inr units \<Rightarrow> Inr (Some units))))"

subsection \<open>Restoring the persisted layout\<close>

text \<open>\<open>tableViewState\<close> and \<open>tableViewColumnState\<close>, lines 1141-1153.\<close>

record tableViewColumnState =
  Name :: string
  Title :: string
  Width :: go_int
  Frozen :: bool

record tableViewState =
  SortColumnName :: string
  SortOrder :: SortOrder
  ColumnDisplayOrder :: "string list"
  Columns :: "tableViewColumnState list"

text \<open>
  Lines 1232-1236: \<open>name2tvc\<close> maps a name to the column that has it, the last one when
  two columns share a name. A \<open>*TableViewColumn\<close> is the position of the column in
  \<open>tv.columns.items\<close>. (\<open>name2tvcs\<close>, lines 1238-1241, is written and never read.)
\<close>

fun name2tvc_loop :: "TableViewColumn list \<Rightarrow> nat \<Rightarrow> (string \<rightharpoonup> nat) \<Rightarrow> (string \<rightharpoonup> nat)" where
  "name2tvc_loop [] p m = m"
| "name2tvc_loop (tvc # items) p m = name2tvc_loop items (Suc p) (m(name tvc \<mapsto> p))"

definition name2tvc :: "TableViewColumn list \<Rightarrow> (string \<rightharpoonup> nat)" where
  "name2tvc items = name2tvc_loop items 0 Map.empty"

text \<open>
  Modelled from the spec: the setters \<open>SetTitleOverride\<close>, \<open>SetWidth\<close>,
  \<open>SetVisible\<close> and \<open>SetFrozen\<close> of \<open>TableViewColumn\<close> are not among the sources.
  By sections 4.5 and 7 of the specification each applies its value to the column, and
  a refusal of the native control is returned as an error with nothing applied.
\<close>

definition setColumn :: "native_call \<Rightarrow> string \<Rightarrow> nat \<Rightarrow> (TableViewColumn \<Rightarrow> TableViewColumn) \<Rightarrow> TableView \<Rightarrow> error option \<times> TableView" where
  "setColumn c msg p f tv =
     (case callNative c tv of (r, tv') \<Rightarrow>
        if r = 0 then (Some (newError msg), tv')
        else (None, tv'\<lparr>columns := (columns tv')[p := f (columns tv' ! p)]\<rparr>))"

definition SetTitleOverride :: "nat \<Rightarrow> string \<Rightarrow> TableView \<Rightarrow> error option \<times> TableView" where
  "SetTitleOverride p t = setColumn (TVC_SetTitleOverride p t) ''SetTitleOverride'' p (\<lambda>tvc. tvc\<lparr>titleOverride := t\<rparr>)"

definition SetWidth :: "nat \<Rightarrow> go_int \<Rightarrow> TableView \<Rightarrow> error option \<times> TableView" where
  "SetWidth p w = setColumn (TVC_SetWidth p w) ''SetWidth'' p (\<lambda>tvc. tvc\<lparr>width := w\<rparr>)"

definition SetVisible :: "nat \<Rightarrow> bool \<Rightarrow> TableView \<Rightarrow> error option \<times> TableView" where
  "SetVisible p b = setColumn (TVC_SetVisible p b) ''SetVisible'' p (\<lambda>tvc. tvc\<lparr>visible := b\<rparr>)"

definition SetFrozen :: "nat \<Rightarrow> bool \<Rightarrow> TableView \<Rightarrow> error option \<times> TableView" where
  "SetFrozen p b = setColumn (TVC_SetFrozen p b) ''SetFrozen'' p (\<lambda>tvc. tvc\<lparr>frozen := b\<rparr>)"

text \<open>
  Lines 1240-1264: the body of the loop for one persisted column, and the loop. The inner
  loop of lines 1250-1256 tests whether the column's name is in \<open>ColumnDisplayOrder\<close>.
\<close>

definition restoreColumn :: "(string \<rightharpoonup> nat) \<Rightarrow> tableViewState \<Rightarrow> tableViewColumnState \<Rightarrow> TableView \<Rightarrow> error option \<times> TableView" where
  "restoreColumn n2c tvs tvcs tv =
     (case n2c (Name tvcs) of
        None \<Rightarrow> (None, tv)
      | Some p \<Rightarrow>
          (case SetTitleOverride p (Title tvcs) tv of
             (Some e, tv1) \<Rightarrow> (Some e, tv1)
           | (None, tv1) \<Rightarrow>
          (case SetWidth p (Width tvcs) tv1 of
             (Some e, tv2) \<Rightarrow> (Some e, tv2)
           | (None, tv2) \<Rightarrow>
          (let tvc = columns tv2 ! p;
               vis = (name tvc \<in> set (ColumnDisplayOrder tvs))
           in
           case SetVisible p (visible tvc \<and> vis) tv2 of
             (Some e, tv3) \<Rightarrow> (Some e, tv3)
           | (None, tv3) \<Rightarrow> SetFrozen p (Frozen tvcs) tv3))))"

fun restoreColumns :: "(string \<rightharpoonup> nat) \<Rightarrow> tableViewState \<Rightarrow> tableViewColumnState list \<Rightarrow> TableView \<Rightarrow> error option \<times> TableView" where
  "restoreColumns n2c tvs [] tv = (None, tv)"
| "restoreColumns n2c tvs (tvcs # rest) tv =
     (case restoreColumn n2c tvs tvcs tv of
        (Some e, tv') \<Rightarrow> (Some e, tv')
      | (None, tv') \<Rightarrow> restoreColumns n2c tvs rest tv')"

text \<open>
  Lines 1272-1285: the reconciled display order. The first loop keeps the persisted names
  that have a visible column; the second appends the visible columns whose name is not
  among the persisted names (\<open>knownNames\<close>).
\<close>

fun displayOrder_known :: "(string \<rightharpoonup> nat) \<Rightarrow> TableViewColumn list \<Rightarrow> string list \<Rightarrow> string list" where
  "displayOrder_known n2c items [] = []"
| "displayOrder_known n2c items (nm # names) =
     (case n2c nm of
        Some p \<Rightarrow>
          if visible (items ! p) then nm # displayOrder_known n2c items names
          else displayOrder_known n2c items names
      | None \<Rightarrow> displayOrder_known n2c items names)"

fun displayOrder_new :: "string list \<Rightarrow> TableViewColumn list \<Rightarrow> string list" where
  "displayOrder_new knownNames [] = []"
| "displayOrder_new knownNames (tvc # cols) =
     (if name tvc \<notin> set knownNames then name tvc # displayOrder_new knownNames cols
      else displayOrder_new knownNames cols)"

definition reconcileDisplayOrder :: "(string \<rightharpoonup> nat) \<Rightarrow> tableViewState \<Rightarrow> TableViewColumn list \<Rightarrow> string list" where
  "reconcileDisplayOrder n2c tvs items =
     displayOrder_known n2c items (ColumnDisplayOrder tvs)
     @ displayOrder_new (ColumnDisplayOrder tvs) (visibleColumns items)"

text \<open>
  Lines 1287-1298: the order array. \<open>findDisplayPos\<close> is the inner loop, which stops at
  the first position \<open>j\<close> below \<open>visibleCount\<close> that holds the name.
\<close>

fun findDisplayPos :: "string \<Rightarrow> string list \<Rightarrow> go_int \<Rightarrow> go_int \<Rightarrow> go_int option" where
  "findDisplayPos nm [] j visibleCount = None"
| "findDisplayPos nm (x # xs) j visibleCount =
     (if nm = x \<and> j <s visibleCount then Some j
      else findDisplayPos nm xs (j + 1) visibleCount)"

fun orderIndices :: "TableViewColumn list \<Rightarrow> go_int \<Rightarrow> string list \<Rightarrow> go_int \<Rightarrow> go_int \<Rightarrow> int32 list \<Rightarrow> int32 list" where
  "orderIndices [] i displayOrder visibleCount frozenCount indices = indices"
| "orderIndices (tvc # cols) i displayOrder visibleCount frozenCount indices =
     orderIndices cols (i + 1) displayOrder visibleCount frozenCount
       (case findDisplayPos (name tvc) displayOrder 0 visibleCount of
          None \<Rightarrow> indices
        | Some j \<Rightarrow>
            indices[unat j := ucast (if frozenCount \<le>s j then i - frozenCount else i)])"

text \<open>Lines 1316-1322: the sort column, found by name among the persisted columns.\<close>

fun findSortColumn :: "tableViewColumnState list \<Rightarrow> string \<Rightarrow> go_int \<Rightarrow> go_int \<Rightarrow> go_int option" where
  "findSortColumn [] nm i visibleCount = None"
| "findSortColumn (c # cs) nm i visibleCount =
     (if Name c = nm \<and> i <s visibleCount then Some i
      else findSortColumn cs nm (i + 1) visibleCount)"

definition restoreSortColumn :: "tableViewState \<Rightarrow> go_int \<Rightarrow> TableView \<Rightarrow> TableView" where
  "restoreSortColumn tvs visibleCount tv =
     (case findSortColumn (Columns tvs) (SortColumnName tvs) 0 visibleCount of
        Some i \<Rightarrow> tv\<lparr>sortedColumnIndex := i, sortOrder := SortOrder tvs\<rparr>
      | None \<Rightarrow> tv)"

text \<open>
  Lines 1324-1334. \<open>sortableColumn_loop\<close> is the loop of lines 1326-1330 over the
  indices of \<open>tvs.Columns\<close>, with \<open>sortedIdx\<close> for \<open>tv.sortedColumnIndex\<close>: it
  assigns at every sortable index and does not leave the loop. The result of
  \<open>sorter.Sort\<close> is dropped.
\<close>

fun sortableColumn_loop :: "Sorter \<Rightarrow> tableViewColumnState list \<Rightarrow> go_int \<Rightarrow> go_int \<Rightarrow> go_int" where
  "sortableColumn_loop s [] i sortedIdx = sortedIdx"
| "sortableColumn_loop s (c # cs) i sortedIdx =
     sortableColumn_loop s cs (i + 1) (if Sorter_ColumnSortable s i then i else sortedIdx)"

definition restoreSort :: "tableViewState \<Rightarrow> TableView \<Rightarrow> TableView" where
  "restoreSort tvs tv =
     (case modelSorter tv of
        None \<Rightarrow> tv
      | Some s \<Rightarrow>
          let tv1 =
            (if \<not> Sorter_ColumnSortable s (sortedColumnIndex tv)
             then tv\<lparr>sortedColumnIndex := sortableColumn_loop s (Columns tvs) 0 (sortedColumnIndex tv)\<rparr>
             else tv)
          in tv1\<lparr>trace := trace tv1 @ [ModelSort (sortedColumnIndex tv1) (SortOrder tvs)]\<rparr>)"

text \<open>Lines 1232-1336: \<open>RestoreState\<close> from the decoded state on.\<close>

definition restoreLayout :: "tableViewState \<Rightarrow> TableView \<Rightarrow> error option \<times> TableView" where
  "restoreLayout tvs tv =
     (let n2c = name2tvc (columns tv) in
      case restoreColumns n2c tvs (Columns tvs) tv of
        (Some e, tv1) \<Rightarrow> (Some e, tv1)
      | (None, tv1) \<Rightarrow>
          let visibleCount = visibleColumnCount (columns tv1);
              frozenCount = visibleFrozenColumnCount (columns tv1);
              normalCount = visibleCount - frozenCount;
              displayOrder = reconcileDisplayOrder n2c tvs (columns tv1);
              indices = orderIndices (visibleColumns (columns tv1)) 0 displayOrder
                          visibleCount frozenCount (replicate (unat visibleCount) 0)
          in
            case sendEach
               ((if 0 <s frozenCount then
                   [(LVM_SETCOLUMNORDERARRAY hwndFrozen frozenCount
                       (take (unat frozenCount) indices), ''LVM_SETCOLUMNORDERARRAY'')]
                 else [])
                @ (if 0 <s normalCount then
                     [(LVM_SETCOLUMNORDERARRAY hwndNormal normalCount
                         (take (unat normalCount) (drop (unat frozenCount) indices)),
                       ''LVM_SETCOLUMNORDERARRAY'')]
                   else [])) tv1
            of
              (Some e, tv2) \<Rightarrow> (Some e, tv2)
            | (None, tv2) \<Rightarrow> (None, restoreSort tvs (restoreSortColumn tvs visibleCount tv2)))"

text \<open>
  \<open>RestoreState\<close>, lines 1214-1337. \<open>readState\<close> is the result of \<open>tv.ReadState()\<close> and
  \<open>unmarshal\<close> stands for \<open>json.Unmarshal\<close> into a \<open>tableViewState\<close>; both are
  parameters.

  Modelled from the spec: \<open>SetSuspended\<close> of the widget base is not among the sources.
  By section 4.5 of the specification it suspends layout and redraw notifications for
  the duration of the restore; here it is the flag \<open>suspended\<close>.
\<close>

definition RestoreState :: "(string \<Rightarrow> error + tableViewState) \<Rightarrow> error + string \<Rightarrow> TableView \<Rightarrow> error option \<times> TableView" where
  "RestoreState unmarshal readState tv =
     (case readState of
        Inl err \<Rightarrow> (Some err, tv)
      | Inr state \<Rightarrow>
          if state = [] then (None, tv)
          else
            case
              (case unmarshal state of
                 Inl err \<Rightarrow> (Some err, tv\<lparr>suspended := True\<rparr>)
               | Inr tvs \<Rightarrow> restoreLayout tvs (tv\<lparr>suspended := True\<rparr>))
            of (err, tv') \<Rightarrow> (err, tv'\<lparr>suspended := False\<rparr>))"

subsection \<open>Observations used in the statements\<close>




text \<open>The number of publications of an event so far.\<close>

definition published :: "event \<Rightarrow> TableView \<Rightarrow> nat" where
  "published ev tv = count_list (trace tv) (Publish ev)"



subsection \<open>Example configurations\<close>

definition mkColumn :: "string \<Rightarrow> bool \<Rightarrow> bool \<Rightarrow> TableViewColumn" where
  "mkColumn nm fr vis =
     \<lparr>name = nm, titleOverride = [], width = 100, format = ''%v'', precision = 0,
      frozen = fr, visible = vis\<rparr>"

text \<open>A frozen column followed by a normal one, both visible.\<close>

definition twoPaneColumns :: "TableViewColumn list" where
  "twoPaneColumns = [mkColumn ''id'' True True, mkColumn ''title'' False True]"

text \<open>Normal columns, the second hidden, and a frozen column at the end.\<close>

definition trailingFrozenColumns :: "TableViewColumn list" where
  "trailingFrozenColumns =
     [mkColumn ''a'' False True, mkColumn ''b'' False False, mkColumn ''c'' False True,
      mkColumn ''d'' True True]"

text \<open>
  Native controls: one in single-selection mode that accepts every request and has no
  selected item, one that refuses every request, and one in multi-selection mode that
  reports the two selected items 1 and 3.
\<close>

definition singleSelNative :: "nat \<Rightarrow> native_call \<Rightarrow> uintptr" where
  "singleSelNative n c =
     (case c of GetWindowLong_GWL_STYLE h \<Rightarrow> 4 | LVM_GETSELECTEDCOUNT h \<Rightarrow> 0 | _ \<Rightarrow> 1)"



text \<open>A model of ten rows with a given sorter, and a sorter whose \<open>Sort\<close> fails.\<close>

definition modelWith :: "Sorter option \<Rightarrow> TableModel" where
  "modelWith s = \<lparr>RowCount = 10, Value = (\<lambda>row col. VNil), sorter = s\<rparr>"

definition failingSorter :: Sorter where
  "failingSorter =
     \<lparr>Sorter_ColumnSortable = (\<lambda>col. True), Sorter_SortedColumn = 0,
      Sorter_SortOrder = SortAscending,
      Sorter_Sort = (\<lambda>col order. Some (ModelError ''sort failed''))\<rparr>"

text \<open>
  A view of four columns on a model of ten rows that is no \<open>Sorter\<close>, with no current
  item, no selection and no delay.
\<close>

definition exampleView :: TableView where
  "exampleView =
     \<lparr>columns = trailingFrozenColumns, model = Some (modelWith None), selectedIndexes = [],
      prevIndex = - 1, currentIndex = - 1, inSetSelectedIndexes = False,
      itemStateChangedEventDelay = 0, delayedCurrentIndexChangedCanceled = False,
      sortedColumnIndex = 0, sortOrder = SortAscending, inSetCurrentIndex = False,
      suspended = False, allocatable = 1000000, native = singleSelNative, trace = []\<rparr>"




text \<open>A native control that accepts every request.\<close>

definition acceptingNative :: "nat \<Rightarrow> native_call \<Rightarrow> uintptr" where
  "acceptingNative n c = 1"

text \<open>
  A view of three columns on a model that sorts by every column but the first, and the
  layout it saved while sorted by the first column.
\<close>

definition pickySorter :: Sorter where
  "pickySorter =
     \<lparr>Sorter_ColumnSortable = (\<lambda>col. col \<noteq> 0), Sorter_SortedColumn = 0,
      Sorter_SortOrder = SortAscending, Sorter_Sort = (\<lambda>col order. None)\<rparr>"

definition fileColumns :: "TableViewColumn list" where
  "fileColumns = [mkColumn ''icon'' False True, mkColumn ''name'' False True, mkColumn ''size'' False True]"

definition fileView :: TableView where
  "fileView = exampleView\<lparr>columns := fileColumns, model := Some (modelWith (Some pickySorter)),
      native := acceptingNative\<rparr>"

definition fileLayout :: tableViewState where
  "fileLayout =
     \<lparr>SortColumnName = ''icon'', SortOrder = SortDescending,
      ColumnDisplayOrder = [''icon'', ''name'', ''size''],
      Columns = [\<lparr>Name = ''icon'', Title = [], Width = 20, Frozen = False\<rparr>,
                 \<lparr>Name = ''name'', Title = [], Width = 200, Frozen = False\<rparr>,
                 \<lparr>Name = ''size'', Title = [], Width = 80, Frozen = False\<rparr>]\<rparr>"




text \<open>
  A view of three columns on a model of one row that holds the \<open>float64\<close> 1234.5 (by its
  bits), \<open>true\<close> and \<open>false\<close>, with formatting functions that give 1234.5 at
  precision 2 its grouped text, and the UTF-16 units of the check mark (U+2714) and of
  ASCII text.
\<close>

definition sampleFormatters :: Formatters where
  "sampleFormatters =
     \<lparr>FormatFloatGrouped = (\<lambda>f prec. if f = 0x40934A0000000000 \<and> prec = 2 then ''1,234.50'' else ''#''),
      formatBigRatGrouped = (\<lambda>r prec. ''#''),
      float64_of_float32 = (\<lambda>f. 0),
      time_Year = (\<lambda>t. 2020),
      time_Format = (\<lambda>t layout. layout),
      fmt_Sprintf = (\<lambda>pattern v. pattern),
      utf16_Encode = (\<lambda>s. if s = [CHR 0xE2, CHR 0x9C, CHR 0x94] then [0x2714]
                          else map of_char s)\<rparr>"

definition sampleModel :: TableModel where
  "sampleModel =
     \<lparr>RowCount = 1,
      Value = (\<lambda>row col. if col = 0 then VFloat64 0x40934A0000000000
                         else if col = 1 then VBool True else VBool False),
      sorter = None\<rparr>"

definition sampleView :: TableView where
  "sampleView = exampleView\<lparr>columns := fileColumns, model := Some sampleModel\<rparr>"

section \<open>The column index mappings: theorems\<close>

lemma toLVColIdx_loop_rank:
  "n < length items \<Longrightarrow> visible (items ! n) \<Longrightarrow> k + length items \<le> 2 ^ 64 \<Longrightarrow>
   toLVColIdx_loop items (of_nat (k + n)) idx (of_nat k) =
     idx + of_nat (length (filter visible (take n items)))"
proof (induction items arbitrary: n k idx)
  case Nil
  then show ?case by simp
next
  case (Cons tvc items)
  show ?case
  proof (cases n)
    case 0
    with Cons.prems show ?thesis by simp
  next
    case (Suc m)
    have neq: "(of_nat k :: go_int) \<noteq> of_nat (k + Suc m)"
    proof
      assume "(of_nat k :: go_int) = of_nat (k + Suc m)"
      then have "take_bit 64 k = take_bit 64 (k + Suc m)"
        using word_of_nat_eq_iff [where 'a = 64, of k "k + Suc m"] by simp
      moreover have "k < 2 ^ 64" "k + Suc m < 2 ^ 64"
        using Cons.prems Suc by simp_all
      ultimately show False by (simp add: take_bit_nat_eq_self)
    qed
    have ih: "toLVColIdx_loop items (of_nat (Suc k + m)) idx' (of_nat (Suc k)) =
        idx' + of_nat (length (filter visible (take m items)))" for idx'
      using Cons.prems Suc by (intro Cons.IH) simp_all
    have i1: "(of_nat k :: go_int) + 1 = of_nat (Suc k)" by simp
    have i2: "(of_nat (k + Suc m) :: go_int) = of_nat (Suc k + m)" by simp
    show ?thesis
      unfolding Suc toLVColIdx_loop.simps take_Suc_Cons filter.simps i1
      using neq ih unfolding i2 by (simp del: of_nat_add of_nat_Suc) simp
  qed
qed

lemma fromLVColIdx_loop_rank:
  "n < length items \<Longrightarrow> fr = frozen (items ! n) \<and> visible (items ! n) \<Longrightarrow>
   length items < 2 ^ 32 \<Longrightarrow>
   fromLVColIdx_loop items fr
       (idx + of_nat (length (filter (\<lambda>tvc. fr = frozen tvc \<and> visible tvc) (take n items))))
       idx (of_nat k) = of_nat (k + n)"
proof (induction items arbitrary: n k idx)
  case Nil
  then show ?case by simp
next
  case (Cons tvc items)
  let ?P = "\<lambda>tvc. fr = frozen tvc \<and> visible tvc"
  show ?case
  proof (cases n)
    case 0
    with Cons.prems show ?thesis by simp
  next
    case (Suc m)
    let ?c = "length (filter ?P (take m items))"
    have c_le: "?c \<le> m"
      using length_filter_le [of ?P "take m items"] by simp
    have m_lt: "m < length items" using Cons.prems Suc by simp
    have ih: "fromLVColIdx_loop items fr (idx' + of_nat ?c) idx' (of_nat (Suc k)) =
        of_nat (Suc k + m)" for idx'
      using Cons.prems Suc by (intro Cons.IH) simp_all
    have i1: "(of_nat k :: go_int) + 1 = of_nat (Suc k)" by simp
    show ?thesis
    proof (cases "?P tvc")
      case True
      have "(of_nat (Suc ?c) :: int32) \<noteq> 0"
      proof
        assume "(of_nat (Suc ?c) :: int32) = 0"
        then have "take_bit 32 (Suc ?c) = take_bit 32 (0::nat)"
          using word_of_nat_eq_iff [where 'a = 32, of "Suc ?c" 0] by simp
        moreover have "Suc ?c < 2 ^ 32"
          using c_le m_lt Cons.prems(3) by simp
        ultimately show False by (simp add: take_bit_nat_eq_self)
      qed
      then have neq: "idx \<noteq> idx + of_nat (Suc ?c)" by simp
      have step: "idx + of_nat (Suc ?c) = (idx + 1) + of_nat ?c" by simp
      have "fromLVColIdx_loop (tvc # items) fr (idx + of_nat (Suc ?c)) idx (of_nat k) =
          fromLVColIdx_loop items fr (idx + of_nat (Suc ?c)) (idx + 1) (of_nat k + 1)"
        using True neq by (simp only: fromLVColIdx_loop.simps if_True if_False simp_thms)
      also have "\<dots> = of_nat (Suc k + m)"
        unfolding step i1 by (rule ih)
      finally have run: "fromLVColIdx_loop (tvc # items) fr (idx + of_nat (Suc ?c)) idx (of_nat k) =
          of_nat (Suc k + m)" .
      have len: "length (filter ?P (take n (tvc # items))) = Suc ?c"
        using True by (simp only: Suc take_Suc_Cons filter.simps if_True list.size) simp
      show ?thesis unfolding len using run by (simp only: Suc add_Suc_right add_Suc)
    next
      case False
      have "fromLVColIdx_loop (tvc # items) fr (idx + of_nat ?c) idx (of_nat k) =
          fromLVColIdx_loop items fr (idx + of_nat ?c) idx (of_nat k + 1)"
        using False by (simp only: fromLVColIdx_loop.simps if_True if_False simp_thms)
      also have "\<dots> = of_nat (Suc k + m)"
        unfolding i1 by (rule ih)
      finally have run: "fromLVColIdx_loop (tvc # items) fr (idx + of_nat ?c) idx (of_nat k) =
          of_nat (Suc k + m)" .
      have len: "length (filter ?P (take n (tvc # items))) = ?c"
        using False by (simp only: Suc take_Suc_Cons filter.simps if_False)
      show ?thesis unfolding len using run by (simp only: Suc add_Suc_right add_Suc)
    qed
  qed
qed

lemma toLVColIdx_visibleRank:
  assumes "n < length items" and "visible (items ! n)" and "length items < 2 ^ 31"
  shows "toLVColIdx items (of_nat n) = of_nat (visibleRank items n)"
proof -
  have "0 + length items \<le> (2::nat) ^ 64" using assms(3) by simp
  from toLVColIdx_loop_rank [OF assms(1,2) this, of 0]
  show ?thesis by (simp add: toLVColIdx_def visibleRank_def)
qed

lemma fromLVColIdx_paneRank:
  assumes "n < length items" and "visible (items ! n)" and "length items < 2 ^ 31"
  shows "fromLVColIdx items (frozen (items ! n)) (of_nat (paneRank items n)) = of_nat n"
proof -
  have lt: "length items < (2::nat) ^ 32" using assms(3) by simp
  have P: "frozen (items ! n) = frozen (items ! n) \<and> visible (items ! n)"
    using assms(2) by simp
  from fromLVColIdx_loop_rank [OF assms(1) P lt, of 0 0]
  show ?thesis by (simp add: fromLVColIdx_def paneRank_def eq_commute)
qed

lemma ranks_agree:
  assumes "\<forall>m<n. visible (items ! m) \<longrightarrow> frozen (items ! m) = frozen (items ! n)"
    and "n \<le> length items"
  shows "visibleRank items n = paneRank items n"
proof -
  have "filter visible (take n items) =
      filter (\<lambda>tvc. frozen tvc = frozen (items ! n) \<and> visible tvc) (take n items)"
  proof (rule filter_cong [OF refl])
    fix tvc assume "tvc \<in> set (take n items)"
    then obtain m where "m < n" "m < length items" "tvc = items ! m"
      by (auto simp: in_set_conv_nth)
    with assms(1) show "visible tvc = (frozen tvc = frozen (items ! n) \<and> visible tvc)"
      by auto
  qed
  then show ?thesis by (simp add: visibleRank_def paneRank_def)
qed

lemma of_nat_go_int_inj:
  "m < 2 ^ 64 \<Longrightarrow> n < 2 ^ 64 \<Longrightarrow> (of_nat m :: go_int) = of_nat n \<Longrightarrow> m = n"
  using word_of_nat_eq_iff [where 'a = 64, of m n] by (simp add: take_bit_nat_eq_self)

lemma of_nat_int32_inj:
  "m < 2 ^ 32 \<Longrightarrow> n < 2 ^ 32 \<Longrightarrow> (of_nat m :: int32) = of_nat n \<Longrightarrow> m = n"
  using word_of_nat_eq_iff [where 'a = 32, of m n] by (simp add: take_bit_nat_eq_self)

lemma of_nat_go_int_not_minus_one:
  assumes "m < 2 ^ 63" shows "(of_nat m :: go_int) \<noteq> - 1"
proof
  assume "(of_nat m :: go_int) = - 1"
  then have "(of_nat m :: go_int) = of_nat (2 ^ 64 - 1)" by simp
  moreover have "m < 2 ^ 64" using assms by simp
  ultimately have "m = 2 ^ 64 - 1" by (intro of_nat_go_int_inj) simp_all
  with assms show False by simp
qed

lemma fromLVColIdx_loop_range:
  "fromLVColIdx_loop items fr index idx (of_nat k) = - 1 \<or>
   (\<exists>m<length items. fromLVColIdx_loop items fr index idx (of_nat k) = of_nat (k + m))"
proof (induction items arbitrary: idx k)
  case Nil
  show ?case by simp
next
  case (Cons tvc items)
  have i1: "(of_nat k :: go_int) + 1 = of_nat (Suc k)" by simp
  have step: "\<And>idx'. fromLVColIdx_loop items fr index idx' (of_nat (Suc k)) = - 1 \<or>
     (\<exists>m<length (tvc # items). fromLVColIdx_loop items fr index idx' (of_nat (Suc k)) = of_nat (k + m))"
  proof -
    fix idx'
    from Cons.IH [of idx' "Suc k"] show "fromLVColIdx_loop items fr index idx' (of_nat (Suc k)) = - 1 \<or>
     (\<exists>m<length (tvc # items). fromLVColIdx_loop items fr index idx' (of_nat (Suc k)) = of_nat (k + m))"
    proof
      assume "fromLVColIdx_loop items fr index idx' (of_nat (Suc k)) = - 1"
      then show ?thesis by simp
    next
      assume "\<exists>m<length items. fromLVColIdx_loop items fr index idx' (of_nat (Suc k)) = of_nat (Suc k + m)"
      then obtain m where "m < length items"
        "fromLVColIdx_loop items fr index idx' (of_nat (Suc k)) = of_nat (Suc k + m)" by blast
      then have "Suc m < length (tvc # items)"
        "fromLVColIdx_loop items fr index idx' (of_nat (Suc k)) = of_nat (k + Suc m)" by simp_all
      then show ?thesis by blast
    qed
  qed
  show ?case
  proof (cases "(fr = frozen tvc \<and> visible tvc) \<and> idx = index")
    case True
    then have "fromLVColIdx_loop (tvc # items) fr index idx (of_nat k) = of_nat (k + 0)" by simp
    then show ?thesis by (intro disjI2 exI [of _ 0]) simp
  next
    case False
    then have "fromLVColIdx_loop (tvc # items) fr index idx (of_nat k) =
        fromLVColIdx_loop items fr index (if fr = frozen tvc \<and> visible tvc then idx + 1 else idx)
          (of_nat (Suc k))"
      unfolding i1 [symmetric] by auto
    with step show ?thesis by simp
  qed
qed

lemma fromLVColIdx_loop_found:
  "fromLVColIdx_loop items fr index idx (of_nat k) = of_nat (k + n) \<Longrightarrow> n < length items \<Longrightarrow>
   k + length items < 2 ^ 63 \<Longrightarrow>
   index = idx + of_nat (length (filter (\<lambda>tvc. fr = frozen tvc \<and> visible tvc) (take n items)))"
proof (induction items arbitrary: n k idx)
  case Nil
  then show ?case by simp
next
  case (Cons tvc items)
  let ?P = "\<lambda>tvc. fr = frozen tvc \<and> visible tvc"
  have i1: "(of_nat k :: go_int) + 1 = of_nat (Suc k)" by simp
  have bounds: "k < 2 ^ 64" "k + n < 2 ^ 64" "k + n < 2 ^ 63"
    using Cons.prems(2,3) by simp_all
  show ?case
  proof (cases "?P tvc \<and> idx = index")
    case True
    then have "fromLVColIdx_loop (tvc # items) fr index idx (of_nat k) = of_nat k" by simp
    with Cons.prems(1) have "(of_nat k :: go_int) = of_nat (k + n)" by simp
    with bounds have "k = k + n" by (intro of_nat_go_int_inj)
    then have "n = 0" by simp
    with True show ?thesis by simp
  next
    case False
    let ?idx' = "if ?P tvc then idx + 1 else idx"
    from False have red: "fromLVColIdx_loop (tvc # items) fr index idx (of_nat k) =
        fromLVColIdx_loop items fr index ?idx' (of_nat (Suc k))"
      unfolding i1 [symmetric] by auto
    with Cons.prems(1) have r: "fromLVColIdx_loop items fr index ?idx' (of_nat (Suc k)) = of_nat (k + n)"
      by simp
    have "n \<noteq> 0"
    proof
      assume "n = 0"
      with r have r0: "fromLVColIdx_loop items fr index ?idx' (of_nat (Suc k)) = of_nat k" by simp
      from fromLVColIdx_loop_range [of items fr index ?idx' "Suc k"] show False
      proof
        assume "fromLVColIdx_loop items fr index ?idx' (word_of_nat (Suc k)) = - 1"
        with r0 have "(of_nat k :: go_int) = - 1" by simp
        moreover have "k < 2 ^ 63" using Cons.prems(3) by simp
        ultimately show False using of_nat_go_int_not_minus_one by blast
      next
        assume "\<exists>m<length items. fromLVColIdx_loop items fr index ?idx' (word_of_nat (Suc k)) =
            word_of_nat (Suc k + m)"
        then obtain m where m: "m < length items" "(of_nat k :: go_int) = of_nat (Suc k + m)"
          using r0 by auto
        have "Suc k + m < 2 ^ 64" using m(1) Cons.prems(3) by simp
        with bounds(1) m(2) have "k = Suc k + m" by (intro of_nat_go_int_inj)
        then show False by simp
      qed
    qed
    then obtain m where n: "n = Suc m" by (cases n) auto
    have r': "fromLVColIdx_loop items fr index ?idx' (of_nat (Suc k)) = of_nat (Suc k + m)"
      using r n by simp
    have "index = ?idx' + of_nat (length (filter ?P (take m items)))"
      using Cons.prems(2,3) n by (intro Cons.IH [OF r']) simp_all
    then show ?thesis unfolding n by simp
  qed
qed

lemma filter_length_eq_imp:
  assumes "length (filter P xs) = length (filter (\<lambda>x. Q x \<and> P x) xs)"
  shows "\<forall>x\<in>set xs. P x \<longrightarrow> Q x"
proof (intro ballI impI)
  fix x assume x: "x \<in> set xs" and p: "P x"
  have f: "filter (\<lambda>x. Q x \<and> P x) xs = filter Q (filter P xs)"
    by (simp only: filter_filter conj_commute)
  show "Q x"
  proof (rule ccontr)
    assume "\<not> Q x"
    moreover have "x \<in> set (filter P xs)" using x p by simp
    ultimately have "length (filter Q (filter P xs)) < length (filter P xs)"
      by (rule length_filter_less [rotated])
    with assms f show False by simp
  qed
qed

text \<open>
  C1 (as amended). \<open>toLVColIdx\<close> gives a visible column its rank among all the visible
  columns before it, of both panes. For a visible column \<open>n\<close> the round trip
  \<open>fromLVColIdx (frozen n) (toLVColIdx n) = n\<close> holds exactly when every visible column
  before \<open>n\<close> in logical order is in the pane of \<open>n\<close>, that is when this rank is the
  rank within the pane. The bound keeps the \<open>int32\<close> counter below its wrap-around.
\<close>

theorem fromLVColIdx_toLVColIdx_same_pane:
  assumes "n < length items" and "visible (items ! n)" and "length items < 2 ^ 31"
  shows "toLVColIdx items (of_nat n) = of_nat (visibleRank items n) \<and>
         (fromLVColIdx items (frozen (items ! n)) (toLVColIdx items (of_nat n)) = of_nat n \<longleftrightarrow>
          (\<forall>m<n. visible (items ! m) \<longrightarrow> frozen (items ! m) = frozen (items ! n)))"
proof -
  let ?same = "\<forall>m<n. visible (items ! m) \<longrightarrow> frozen (items ! m) = frozen (items ! n)"
  let ?trip = "fromLVColIdx items (frozen (items ! n)) (of_nat (visibleRank items n))"
  let ?P = "\<lambda>tvc. frozen (items ! n) = frozen tvc \<and> visible tvc"
  have to: "toLVColIdx items (of_nat n) = of_nat (visibleRank items n)"
    using assms by (rule toLVColIdx_visibleRank)
  have "?trip = of_nat n" if same: ?same
  proof -
    have "visibleRank items n = paneRank items n"
      using same assms(1) by (intro ranks_agree) simp_all
    with fromLVColIdx_paneRank [OF assms] show ?thesis by (simp only:)
  qed
  moreover have ?same if rt: "?trip = of_nat n"
  proof -
    have "(2::nat) ^ 31 < 2 ^ 63" by simp
    with assms(3) have b: "0 + length items < (2::nat) ^ 63" by linarith
    have "fromLVColIdx_loop items (frozen (items ! n)) (of_nat (visibleRank items n)) 0 (of_nat 0) =
        of_nat (0 + n)"
      using rt by (simp add: fromLVColIdx_def)
    from fromLVColIdx_loop_found [OF this assms(1) b]
    have eq32: "(of_nat (visibleRank items n) :: int32) = of_nat (length (filter ?P (take n items)))"
      by simp
    have "(2::nat) ^ 31 < 2 ^ 32" by simp
    with assms(3) have len32: "length items < (2::nat) ^ 32" by linarith
    have "visibleRank items n \<le> n"
      unfolding visibleRank_def using length_filter_le [of visible "take n items"] by simp
    with assms(1) len32 have r1: "visibleRank items n < 2 ^ 32" by linarith
    have "length (filter ?P (take n items)) \<le> n"
      using length_filter_le [of ?P "take n items"] by simp
    with assms(1) len32 have r2: "length (filter ?P (take n items)) < 2 ^ 32" by linarith
    from r1 r2 eq32 have "visibleRank items n = length (filter ?P (take n items))"
      by (rule of_nat_int32_inj)
    then have "length (filter visible (take n items)) =
        length (filter (\<lambda>tvc. frozen (items ! n) = frozen tvc \<and> visible tvc) (take n items))"
      by (simp only: visibleRank_def)
    then have all: "\<forall>x\<in>set (take n items). visible x \<longrightarrow> frozen (items ! n) = frozen x"
      by (rule filter_length_eq_imp)
    show ?thesis
    proof (intro allI impI)
      fix m assume m: "m < n" and v: "visible (items ! m)"
      have "m < length (take n items)" using m assms(1) by simp
      then have "take n items ! m \<in> set (take n items)" by (rule nth_mem)
      moreover have "take n items ! m = items ! m" using m by simp
      ultimately have "items ! m \<in> set (take n items)" by (simp only:)
      with all v have "frozen (items ! n) = frozen (items ! m)" by blast
      then show "frozen (items ! m) = frozen (items ! n)" by (rule sym)
    qed
  qed
  ultimately have "?trip = of_nat n \<longleftrightarrow> ?same" by blast
  with to show ?thesis by (simp only: simp_thms)
qed

text \<open>
  Column \<open>c\<close> of the four columns: the visible column before it is a normal column as it
  is, its rank is 1 and the round trip gives its index 2.
\<close>

theorem fromLVColIdx_toLVColIdx_same_pane_witness:
  "toLVColIdx trailingFrozenColumns 2 = 1 \<and>
   fromLVColIdx trailingFrozenColumns (frozen (trailingFrozenColumns ! 2))
     (toLVColIdx trailingFrozenColumns 2) = 2"
proof -
  have len: "(2::nat) < length trailingFrozenColumns"
    by (simp add: trailingFrozenColumns_def)
  have vis: "visible (trailingFrozenColumns ! 2)"
    by (simp add: trailingFrozenColumns_def mkColumn_def)
  have bound: "length trailingFrozenColumns < 2 ^ 31"
    by (simp add: trailingFrozenColumns_def)
  have pane: "\<forall>m<2. visible (trailingFrozenColumns ! m) \<longrightarrow>
      frozen (trailingFrozenColumns ! m) = frozen (trailingFrozenColumns ! 2)"
    by (simp add: trailingFrozenColumns_def mkColumn_def nth_Cons' less_Suc_eq numeral_2_eq_2)
  have rank: "visibleRank trailingFrozenColumns 2 = 1"
    by (simp add: visibleRank_def trailingFrozenColumns_def mkColumn_def numeral_2_eq_2)
  from fromLVColIdx_toLVColIdx_same_pane [OF len vis bound]
  have a: "toLVColIdx trailingFrozenColumns (of_nat 2) =
      of_nat (visibleRank trailingFrozenColumns 2)"
    and b: "fromLVColIdx trailingFrozenColumns (frozen (trailingFrozenColumns ! 2))
        (toLVColIdx trailingFrozenColumns (of_nat 2)) = of_nat 2 \<longleftrightarrow>
      (\<forall>m<2. visible (trailingFrozenColumns ! m) \<longrightarrow>
         frozen (trailingFrozenColumns ! m) = frozen (trailingFrozenColumns ! 2))"
    by blast+
  from b pane have c: "fromLVColIdx trailingFrozenColumns (frozen (trailingFrozenColumns ! 2))
        (toLVColIdx trailingFrozenColumns (of_nat 2)) = of_nat 2" by blast
  from a rank have a': "toLVColIdx trailingFrozenColumns 2 = 1" by simp
  from c have c': "fromLVColIdx trailingFrozenColumns (frozen (trailingFrozenColumns ! 2))
        (toLVColIdx trailingFrozenColumns 2) = 2" by simp
  from a' c' show ?thesis by blast
qed

text \<open>
  C1 as stated fails: with a visible frozen column before a visible normal one, the
  normal column has rank 0 in its pane, \<open>toLVColIdx\<close> gives it 1, and
  \<open>fromLVColIdx\<close> finds no second normal column.
\<close>

theorem fromLVColIdx_toLVColIdx_counterexample:
  "visible (twoPaneColumns ! 1) \<and> paneRank twoPaneColumns 1 = 0 \<and>
   toLVColIdx twoPaneColumns 1 = 1 \<and>
   fromLVColIdx twoPaneColumns (frozen (twoPaneColumns ! 1)) (toLVColIdx twoPaneColumns 1) = - 1 \<and>
   fromLVColIdx twoPaneColumns (frozen (twoPaneColumns ! 1)) (toLVColIdx twoPaneColumns 1) \<noteq> 1"
  by (simp add: twoPaneColumns_def mkColumn_def paneRank_def toLVColIdx_def fromLVColIdx_def)

section \<open>Selection and current item: theorems\<close>

lemma callNative_simps:
  "fst (callNative c tv) = native tv (length (trace tv)) c"
  "snd (callNative c tv) = tv\<lparr>trace := trace tv @ [Native c]\<rparr>"
  by (simp_all add: callNative_def)























lemma notifications_append:
  "notifications (tv\<lparr>trace := trace tv @ es\<rparr>) = notifications tv @ filter isNotification es"
  by (simp add: notifications_def)








text \<open>
  The timer that \<open>publishSelectedIndexesChanged\<close> requests becomes the publication
  when it fires.
\<close>

lemma WM_TIMER_publishes_selection:
  "published SelectedIndexesChanged (WM_TIMER tableViewSelectedIndexesChangedTimerId tv) =
     published SelectedIndexesChanged tv + 1"
  by (simp add: WM_TIMER_def callNative_def publish_def published_def
      tableViewSelectedIndexesChangedTimerId_def tableViewCurrentIndexChangedTimerId_def)

section \<open>Updating an item: theorems\<close>

lemma sendEach_error:
  "fst (sendEach cs tv) = None \<or> (\<exists>msg\<in>snd ` set cs. fst (sendEach cs tv) = Some (newError msg))"
proof (induction cs arbitrary: tv)
  case Nil
  show ?case by simp
next
  case (Cons a cs)
  obtain c msg where a: "a = (c, msg)" by (cases a)
  show ?case
  proof (cases "native tv (length (trace tv)) c = 0")
    case True
    then show ?thesis using a by (simp add: callNative_def)
  next
    case False
    then have "fst (sendEach (a # cs) tv) = fst (sendEach cs (tv\<lparr>trace := trace tv @ [Native c]\<rparr>))"
      using a by (simp add: callNative_def)
    with Cons.IH [of "tv\<lparr>trace := trace tv @ [Native c]\<rparr>"] show ?thesis by auto
  qed
qed

text \<open>
  C9. When the model is a \<open>Sorter\<close> and its \<open>Sort\<close>, called with the model's own
  sorted column and order, returns an error, \<open>UpdateItem\<close> returns that very error.
  When the model is no \<open>Sorter\<close>, or \<open>Sort\<close> returns nil, \<open>UpdateItem\<close> returns nil
  or one of the widget's own errors for a refused native request.
\<close>

theorem UpdateItem_sort_error:
  "(\<forall>s err. modelSorter tv = Some s \<and>
       Sorter_Sort s (Sorter_SortedColumn s) (Sorter_SortOrder s) = Some err \<longrightarrow>
       fst (UpdateItem index tv) = Some err) \<and>
   ((modelSorter tv = None \<or>
     (\<exists>s. modelSorter tv = Some s \<and>
        Sorter_Sort s (Sorter_SortedColumn s) (Sorter_SortOrder s) = None)) \<longrightarrow>
    fst (UpdateItem index tv) \<in>
      {None, Some (newError ''LVM_UPDATE''), Some (newError ''InvalidateRect failed'')})"
proof (intro conjI allI impI)
  fix s err
  assume "modelSorter tv = Some s \<and>
       Sorter_Sort s (Sorter_SortedColumn s) (Sorter_SortOrder s) = Some err"
  then show "fst (UpdateItem index tv) = Some err"
    by (simp add: UpdateItem_def Let_def)
next
  assume h: "modelSorter tv = None \<or>
     (\<exists>s. modelSorter tv = Some s \<and>
        Sorter_Sort s (Sorter_SortedColumn s) (Sorter_SortOrder s) = None)"
  show "fst (UpdateItem index tv) \<in>
      {None, Some (newError ''LVM_UPDATE''), Some (newError ''InvalidateRect failed'')}"
  proof (cases "modelSorter tv")
    case None
    let ?cs = "[(LVM_UPDATE hwndFrozen index, ''LVM_UPDATE''), (LVM_UPDATE hwndNormal index, ''LVM_UPDATE'')]"
    have "fst (UpdateItem index tv) = fst (sendEach ?cs tv)"
      using None by (simp add: UpdateItem_def)
    with sendEach_error [of ?cs tv] show ?thesis by auto
  next
    case (Some s)
    with h have ok: "Sorter_Sort s (Sorter_SortedColumn s) (Sorter_SortOrder s) = None" by auto
    let ?tv1 = "tv\<lparr>trace := trace tv @ [ModelSort (Sorter_SortedColumn s) (Sorter_SortOrder s)]\<rparr>"
    have u: "fst (UpdateItem index tv) = fst (Invalidate ?tv1)"
      using Some ok by (simp add: UpdateItem_def Let_def)
    obtain tv3 where "fst (Invalidate ?tv1) = fst (sendEach [(InvalidateRect hWnd, ''InvalidateRect failed'')] tv3)"
      by (auto simp add: Invalidate_def callNative_def simp del: sendEach.simps)
    with sendEach_error [of "[(InvalidateRect hWnd, ''InvalidateRect failed'')]" tv3] u
    show ?thesis by auto
  qed
qed

text \<open>
  A model whose \<open>Sort\<close> fails with \<open>sort failed\<close>: \<open>UpdateItem\<close> returns that
  error; on a model that is no \<open>Sorter\<close> it returns nil.
\<close>

theorem UpdateItem_sort_error_witness:
  "fst (UpdateItem 1 (exampleView\<lparr>model := Some (modelWith (Some failingSorter))\<rparr>)) =
     Some (ModelError ''sort failed'') \<and>
   fst (UpdateItem 1 exampleView) = None"
proof -
  let ?tv = "exampleView\<lparr>model := Some (modelWith (Some failingSorter))\<rparr>"
  have a: "modelSorter ?tv = Some failingSorter \<and>
      Sorter_Sort failingSorter (Sorter_SortedColumn failingSorter) (Sorter_SortOrder failingSorter) =
        Some (ModelError ''sort failed'')"
    by (simp add: modelSorter_def modelWith_def failingSorter_def)
  have b: "modelSorter exampleView = None"
    by (simp add: modelSorter_def exampleView_def modelWith_def)
  have c: "fst (UpdateItem 1 exampleView) \<noteq> Some (newError ''LVM_UPDATE'')"
    "fst (UpdateItem 1 exampleView) \<noteq> Some (newError ''InvalidateRect failed'')"
    by (simp_all add: UpdateItem_def modelSorter_def exampleView_def modelWith_def callNative_def
        singleSelNative_def)
  from UpdateItem_sort_error [of ?tv 1] a
  have 1: "fst (UpdateItem 1 ?tv) = Some (ModelError ''sort failed'')" by blast
  from UpdateItem_sort_error [of exampleView 1] b c
  have 2: "fst (UpdateItem 1 exampleView) = None" by auto
  from 1 2 show ?thesis by simp
qed

section \<open>Cell text: theorems\<close>

text \<open>The type switch, case by case.\<close>

lemma cellText_by_type:
  "cellText fm tvc (VFloat32 f32) =
     FormatFloatGrouped fm (float64_of_float32 fm f32)
       (if precision tvc = 0 then 2 else precision tvc) \<and>
   cellText fm tvc (VFloat64 f64) =
     FormatFloatGrouped fm f64 (if precision tvc = 0 then 2 else precision tvc) \<and>
   cellText fm tvc (VBigRat r) =
     formatBigRatGrouped fm r (if precision tvc = 0 then 2 else precision tvc) \<and>
   cellText fm tvc (VTime t) =
     (if 1601 <s time_Year fm t then time_Format fm t (format tvc) else []) \<and>
   cellText fm tvc (VBool True) = [CHR 0xE2, CHR 0x9C, CHR 0x94] \<and>
   cellText fm tvc (VBool False) = [] \<and>
   cellText fm tvc (VInt i) = fmt_Sprintf fm (format tvc) (VInt i) \<and>
   cellText fm tvc VNil = fmt_Sprintf fm (format tvc) VNil \<and>
   cellText fm tvc (VOther k) = fmt_Sprintf fm (format tvc) (VOther k) \<and>
   cellText fm tvc (VString s) = s"
  by (simp add: cellText_def checkmark_def Let_def)

text \<open>
  Facts on Go's \<open>int\<close> for a value that is not negative: subtracting 1 does not wrap.
\<close>

lemma sint_dec:
  assumes "\<not> (m :: go_int) <s 0"
  shows "sint (m - 1) = sint m - 1"
proof -
  have a: "0 \<le> sint m" using assms by (simp add: word_sless_alt)
  have b: "sint m < 2 ^ 63" using sint_lt [of m] by simp
  have "sint (m - 1) = signed_take_bit 63 (sint m - 1)"
    by (simp add: sint_word_ariths)
  also have "\<dots> = sint m - 1"
    using a b by (intro signed_take_bit_int_eq_self) simp_all
  finally show ?thesis .
qed

lemma sint_nonneg_uint:
  assumes "\<not> (m :: go_int) <s 0"
  shows "sint m = uint m"
proof -
  have a: "0 \<le> sint m" using assms by (simp add: word_sless_alt)
  have b: "sint m < 2 ^ 63" using sint_lt [of m] by simp
  have "uint m = take_bit 64 (sint m)" using uint_sint [of m] by simp
  also have "\<dots> = sint m" using a b by (intro take_bit_int_eq_self) simp_all
  finally show ?thesis by simp
qed

lemma dec_neg: "\<not> (m :: go_int) <s 0 \<Longrightarrow> (m - 1 <s 0) = (m = 0)"
proof -
  assume h: "\<not> m <s 0"
  have a: "0 \<le> sint m" using h by (simp add: word_sless_alt)
  have "(m - 1 <s 0) = (sint m - 1 < 0)" using sint_dec [OF h] by (simp add: word_sless_alt)
  also have "\<dots> = (sint m = 0)" using a by auto
  also have "\<dots> = (m = 0)" using sint_nonneg_uint [OF h] word_uint_eq_iff [of m 0] by simp
  finally show ?thesis .
qed

lemma dec_big: "\<not> (m :: go_int) <s 0 \<Longrightarrow> (264 \<le>s m - 1) = (264 <s m)"
proof -
  assume h: "\<not> m <s 0"
  have "(264 \<le>s m - 1) = (264 \<le> sint m - 1)" using sint_dec [OF h] by (simp add: word_sle_eq)
  also have "\<dots> = (264 < sint m)" by auto
  also have "\<dots> = (264 <s m)" by (simp add: word_sless_alt)
  finally show ?thesis .
qed

lemma dec_unat: "m \<noteq> 0 \<Longrightarrow> unat ((m :: go_int) - 1) = unat m - 1"
  by (simp add: unat_minus_one)

lemma small_unat: "\<not> (m :: go_int) <s 0 \<Longrightarrow> \<not> 264 <s m \<Longrightarrow> unat m \<le> 264"
proof -
  assume h: "\<not> m <s 0" and k: "\<not> 264 <s m"
  from k have "sint m \<le> 264" by (simp add: word_sless_alt)
  with sint_nonneg_uint [OF h] have "uint m \<le> uint (264 :: go_int)" by simp
  then have "unat m \<le> unat (264 :: go_int)" by (simp only: un_ui_le)
  then show ?thesis by simp
qed

text \<open>The smaller of a length and another \<open>int\<close>, when not negative, is within the length.\<close>

lemma mini_le_length:
  assumes "\<not> mini (of_nat n) c <s 0"
  shows "unat (mini (of_nat n) c) \<le> n"
proof (cases "(of_nat n :: go_int) <s c")
  case True
  then have "mini (of_nat n) c = of_nat n" by (simp add: mini_def)
  then show ?thesis by (simp add: unat_of_nat)
next
  case False
  then have m: "mini (of_nat n) c = c" by (simp add: mini_def)
  with assms have c: "\<not> c <s 0" by simp
  from False have "sint c \<le> sint (of_nat n :: go_int)" by (simp add: word_sless_alt)
  moreover have "0 \<le> sint c" using c by (simp add: word_sless_alt)
  ultimately have "\<not> (of_nat n :: go_int) <s 0" by (simp add: word_sless_alt)
  from sint_nonneg_uint [OF this] sint_nonneg_uint [OF c] \<open>sint c \<le> sint (of_nat n :: go_int)\<close>
  have "uint c \<le> uint (of_nat n :: go_int)" by simp
  then have "unat c \<le> unat (of_nat n :: go_int)" by (simp only: un_ui_le)
  also have "\<dots> \<le> n" by (simp add: unat_of_nat)
  finally show ?thesis using m by simp
qed

text \<open>
  Lines 1569-1572 on the units \<open>StringToUTF16\<close> returns: with \<open>max\<close> the smaller of
  their count and \<open>CchTextMax\<close>, the buffer receives the first \<open>max - 1\<close> units of the
  text and a terminating 0.
\<close>

lemma copyText_cut:
  "copyText (enc @ [0]) cch =
     (let max = mini (of_nat (length enc + 1)) (scast cch) in
      if max <s 0 then Inl SliceBoundsOutOfRange
      else if max = 0 \<or> 264 <s max then Inl IndexOutOfRange
      else Inr (take (unat max - 1) enc @ [0]))"
proof -
  define max where "max = mini (of_nat (length enc + 1)) (scast cch)"
  have run: "copyText (enc @ [0]) cch =
      (if max <s 0 then Inl SliceBoundsOutOfRange
       else if max - 1 <s 0 \<or> 264 \<le>s max - 1 then Inl IndexOutOfRange
       else Inr ((take (min 264 (unat max)) (enc @ [0]))[unat (max - 1) := 0]))"
    unfolding copyText_def max_def Let_def by simp
  show ?thesis
  proof (cases "max <s 0")
    case True
    then show ?thesis using run unfolding max_def [symmetric] Let_def by simp
  next
    case nonneg: False
    show ?thesis
    proof (cases "max = 0 \<or> 264 <s max")
      case True
      then show ?thesis using run nonneg dec_neg [OF nonneg] dec_big [OF nonneg]
        unfolding max_def [symmetric] Let_def by simp
    next
      case False
      then have nz: "max \<noteq> 0" and small: "\<not> 264 <s max" by simp_all
      have le264: "unat max \<le> 264" by (rule small_unat [OF nonneg small])
      have pos: "0 < unat max" using nz by (simp add: unat_gt_0)
      have len: "unat max \<le> length enc + 1"
        using mini_le_length [of "length enc + 1" "scast cch"] nonneg
        unfolding max_def by simp
      have d: "unat (max - 1) = unat max - 1" by (rule dec_unat [OF nz])
      have "(take (min 264 (unat max)) (enc @ [0]))[unat (max - 1) := 0] =
          (take (unat max) (enc @ [0 :: 16 word]))[unat max - 1 := 0]"
        using le264 d by (simp add: min_def)
      also have "\<dots> = take (unat max - 1) enc @ [0]"
      proof (cases "unat max = length enc + 1")
        case True
        then show ?thesis by (simp add: list_update_append)
      next
        case False
        with len have lt: "unat max \<le> length enc" by simp
        then have "take (unat max) (enc @ [0 :: 16 word]) = take (unat max) enc" by simp
        moreover have "take (unat max) enc = take (unat max - 1) enc @ [enc ! (unat max - 1)]"
          using pos lt take_Suc_conv_app_nth [of "unat max - 1" enc] by simp
        ultimately show ?thesis using pos lt by (simp add: list_update_append)
      qed
      finally show ?thesis using run nonneg False dec_neg [OF nonneg] dec_big [OF nonneg]
        unfolding max_def [symmetric] Let_def by simp
    qed
  qed
qed

text \<open>
  C6 (as amended). The text \<open>LVN_GETDISPINFO\<close> resolves for a mapped sub-item is, by the
  dynamic type of the model's value: a \<open>float32\<close>, a \<open>float64\<close> or a \<open>*big.Rat\<close>
  formatted grouped with the column's precision, and with 2 when the precision is 0
  (unset); a \<open>time.Time\<close> formatted with the column's format when its year is above
  1601, and the empty text otherwise; the check mark (the bytes E2 9C 94) for \<open>true\<close>
  and the empty text for \<open>false\<close>; a string itself; \<open>fmt.Sprintf\<close> with the column's
  format for a value of any other type. The formatting functions are the parameters
  \<open>fm\<close>. What the control receives is this text in UTF-16, cut to the size
  \<open>CchTextMax\<close> of its buffer: with \<open>max\<close> the smaller of the count of units plus one
  and \<open>CchTextMax\<close>, the first \<open>max - 1\<close> units and a terminating 0, which is the whole
  text only when it has fewer than \<open>CchTextMax\<close> units. The handler panics when the text
  holds a NUL byte, when \<open>max\<close> is negative or 0, and when \<open>max\<close> is above the 264
  units of \<open>buf\<close>.
\<close>

theorem dispInfoText_by_type:
  assumes "model tv = Some m"
    and "fromLVColIdx (columns tv) (h = hwndFrozen) iSubItem = col" and "col \<noteq> - 1"
  shows "\<exists>text.
     (\<forall>f. Value m row col = VFloat32 f \<longrightarrow>
        text = FormatFloatGrouped fm (float64_of_float32 fm f)
                 (if precision (columns tv ! unat col) = 0 then 2
                  else precision (columns tv ! unat col))) \<and>
     (\<forall>f. Value m row col = VFloat64 f \<longrightarrow>
        text = FormatFloatGrouped fm f
                 (if precision (columns tv ! unat col) = 0 then 2
                  else precision (columns tv ! unat col))) \<and>
     (\<forall>r. Value m row col = VBigRat r \<longrightarrow>
        text = formatBigRatGrouped fm r
                 (if precision (columns tv ! unat col) = 0 then 2
                  else precision (columns tv ! unat col))) \<and>
     (\<forall>t. Value m row col = VTime t \<longrightarrow>
        text = (if 1601 <s time_Year fm t then time_Format fm t (format (columns tv ! unat col))
                else [])) \<and>
     (Value m row col = VBool True \<longrightarrow> text = [CHR 0xE2, CHR 0x9C, CHR 0x94]) \<and>
     (Value m row col = VBool False \<longrightarrow> text = []) \<and>
     (\<forall>s. Value m row col = VString s \<longrightarrow> text = s) \<and>
     ((\<exists>i. Value m row col = VInt i) \<or> Value m row col = VNil \<or> (\<exists>k. Value m row col = VOther k) \<longrightarrow>
        text = fmt_Sprintf fm (format (columns tv ! unat col)) (Value m row col)) \<and>
     dispInfoText fm tv h row iSubItem cchTextMax =
       (if CHR 0x00 \<in> set text then Inl StringWithNUL
        else
          let max = mini (of_nat (length (utf16_Encode fm text) + 1)) (scast cchTextMax) in
          if max <s 0 then Inl SliceBoundsOutOfRange
          else if max = 0 \<or> 264 <s max then Inl IndexOutOfRange
          else Inr (Some (take (unat max - 1) (utf16_Encode fm text) @ [0])))"
proof -
  let ?tvc = "columns tv ! unat col"
  let ?v = "Value m row col"
  let ?text = "cellText fm ?tvc ?v"
  have run: "dispInfoText fm tv h row iSubItem cchTextMax =
       (if CHR 0x00 \<in> set ?text then Inl StringWithNUL
        else
          let max = mini (of_nat (length (utf16_Encode fm ?text) + 1)) (scast cchTextMax) in
          if max <s 0 then Inl SliceBoundsOutOfRange
          else if max = 0 \<or> 264 <s max then Inl IndexOutOfRange
          else Inr (Some (take (unat max - 1) (utf16_Encode fm ?text) @ [0])))"
    using assms
    by (simp add: dispInfoText_def StringToUTF16_def copyText_cut Let_def)
  show ?thesis
  proof (intro exI conjI allI impI)
    show "dispInfoText fm tv h row iSubItem cchTextMax =
       (if CHR 0x00 \<in> set ?text then Inl StringWithNUL
        else
          let max = mini (of_nat (length (utf16_Encode fm ?text) + 1)) (scast cchTextMax) in
          if max <s 0 then Inl SliceBoundsOutOfRange
          else if max = 0 \<or> 264 <s max then Inl IndexOutOfRange
          else Inr (Some (take (unat max - 1) (utf16_Encode fm ?text) @ [0])))" by (rule run)
  next
    fix f assume "?v = VFloat32 f"
    then show "?text = FormatFloatGrouped fm (float64_of_float32 fm f)
        (if precision ?tvc = 0 then 2 else precision ?tvc)"
      by (simp add: cellText_by_type)
  next
    fix f assume "?v = VFloat64 f"
    then show "?text = FormatFloatGrouped fm f
        (if precision ?tvc = 0 then 2 else precision ?tvc)"
      by (simp add: cellText_by_type)
  next
    fix r assume "?v = VBigRat r"
    then show "?text = formatBigRatGrouped fm r
        (if precision ?tvc = 0 then 2 else precision ?tvc)"
      by (simp add: cellText_by_type)
  next
    fix t assume "?v = VTime t"
    then show "?text =
        (if 1601 <s time_Year fm t then time_Format fm t (format ?tvc) else [])"
      by (simp add: cellText_by_type)
  next
    assume "?v = VBool True"
    then show "?text = [CHR 0xE2, CHR 0x9C, CHR 0x94]"
      by (simp add: cellText_by_type)
  next
    assume "?v = VBool False"
    then show "?text = []" by (simp add: cellText_by_type)
  next
    fix s assume "?v = VString s"
    then show "?text = s" by (simp add: cellText_by_type)
  next
    assume "(\<exists>i. ?v = VInt i) \<or> ?v = VNil \<or> (\<exists>k. ?v = VOther k)"
    then show "?text = fmt_Sprintf fm (format ?tvc) ?v"
      by (auto simp add: cellText_by_type)
  qed
qed

text \<open>
  With a buffer of 260 units the value 1234.5 in a column of unset precision arrives as
  the units of \<open>1,234.50\<close> and a 0, \<open>true\<close> as the check mark U+2714 and a 0, and
  \<open>false\<close> as the 0 alone.
\<close>

theorem dispInfoText_by_type_witness:
  "dispInfoText sampleFormatters sampleView hwndNormal 0 0 260 =
     Inr (Some [0x31, 0x2C, 0x32, 0x33, 0x34, 0x2E, 0x35, 0x30, 0]) \<and>
   dispInfoText sampleFormatters sampleView hwndNormal 0 1 260 = Inr (Some [0x2714, 0]) \<and>
   dispInfoText sampleFormatters sampleView hwndNormal 0 2 260 = Inr (Some [0])"
proof -
  have m: "model sampleView = Some sampleModel" by (simp add: sampleView_def)
  have c: "fromLVColIdx (columns sampleView) (hwndNormal = hwndFrozen) 0 = 0"
    "fromLVColIdx (columns sampleView) (hwndNormal = hwndFrozen) 1 = 1"
    "fromLVColIdx (columns sampleView) (hwndNormal = hwndFrozen) 2 = 2"
    by (simp_all add: sampleView_def fileColumns_def mkColumn_def fromLVColIdx_def)
  have p: "precision (columns sampleView ! unat (0 :: go_int)) = 0"
    by (simp add: sampleView_def fileColumns_def mkColumn_def)
  have v: "Value sampleModel 0 0 = VFloat64 0x40934A0000000000"
    "Value sampleModel 0 1 = VBool True" "Value sampleModel 0 2 = VBool False"
    by (simp_all add: sampleModel_def)
  from dispInfoText_by_type
    [OF m c(1), where fm = sampleFormatters and row = 0 and cchTextMax = 260] v(1) p
  have 1: "dispInfoText sampleFormatters sampleView hwndNormal 0 0 260 =
     Inr (Some [0x31, 0x2C, 0x32, 0x33, 0x34, 0x2E, 0x35, 0x30, 0])"
    by (auto simp add: sampleFormatters_def mini_def word_sless_alt Let_def)
  from dispInfoText_by_type
    [OF m c(2), where fm = sampleFormatters and row = 0 and cchTextMax = 260] v(2)
  have 2: "dispInfoText sampleFormatters sampleView hwndNormal 0 1 260 = Inr (Some [0x2714, 0])"
    by (auto simp add: sampleFormatters_def mini_def word_sless_alt Let_def)
  from dispInfoText_by_type
    [OF m c(3), where fm = sampleFormatters and row = 0 and cchTextMax = 260] v(3)
  have 3: "dispInfoText sampleFormatters sampleView hwndNormal 0 2 260 = Inr (Some [0])"
    by (auto simp add: sampleFormatters_def mini_def word_sless_alt Let_def)
  from 1 2 3 show ?thesis by blast
qed

text \<open>
  C6 as stated fails. With a buffer of 5 units the value 1234.5 is rendered as \<open>1,23\<close>,
  with no fraction digit; with a buffer of 1 unit \<open>true\<close> is rendered as the empty
  text, as \<open>false\<close> is.
\<close>

theorem dispInfoText_by_type_counterexample:
  "dispInfoText sampleFormatters sampleView hwndNormal 0 0 5 = Inr (Some [0x31, 0x2C, 0x32, 0x33, 0]) \<and>
   dispInfoText sampleFormatters sampleView hwndNormal 0 1 1 = Inr (Some [0]) \<and>
   dispInfoText sampleFormatters sampleView hwndNormal 0 2 1 = Inr (Some [0])"
  by (simp add: dispInfoText_def StringToUTF16_def copyText_def mini_def cellText_def
      sampleFormatters_def sampleView_def sampleModel_def exampleView_def fileColumns_def
      mkColumn_def fromLVColIdx_def checkmark_def word_sless_alt word_sle_eq Let_def)

section \<open>Restoring the layout: theorems\<close>

lemma sortableColumn_loop_snoc:
  "sortableColumn_loop s (cs @ [c]) i sortedIdx =
     (if Sorter_ColumnSortable s (i + of_nat (length cs)) then i + of_nat (length cs)
      else sortableColumn_loop s cs i sortedIdx)"
proof (induction cs arbitrary: i sortedIdx)
  case Nil
  show ?case by simp
next
  case (Cons a cs)
  have "i + 1 + of_nat (length cs) = i + of_nat (length (a # cs))" by simp
  with Cons.IH [of "i + 1"] show ?case by (simp del: of_nat_Suc)
qed

text \<open>
  C4, on the code. The view sorted by \<open>icon\<close> restores its layout on a model for
  which column 0 is not sortable and columns 1 and 2 are: \<open>RestoreState\<close> returns nil
  with \<open>sortedColumnIndex\<close> 2, and its last effect is \<open>Sort(2, SortDescending)\<close>. The
  first sortable column is 1.
\<close>

theorem RestoreState_sort_fallback_is_last:
  "fst (RestoreState (\<lambda>s. Inr fileLayout) (Inr ''{}'') fileView) = None \<and>
   \<not> Sorter_ColumnSortable pickySorter 0 \<and>
   Sorter_ColumnSortable pickySorter 1 \<and>
   sortedColumnIndex (snd (RestoreState (\<lambda>s. Inr fileLayout) (Inr ''{}'') fileView)) = 2 \<and>
   last (trace (snd (RestoreState (\<lambda>s. Inr fileLayout) (Inr ''{}'') fileView))) =
     ModelSort 2 SortDescending"
  by (simp add: RestoreState_def restoreLayout_def fileLayout_def fileView_def exampleView_def
     fileColumns_def mkColumn_def name2tvc_def restoreColumn_def SetTitleOverride_def SetWidth_def
     SetVisible_def SetFrozen_def setColumn_def callNative_def acceptingNative_def
     visibleColumnCount_def visibleFrozenColumnCount_def reconcileDisplayOrder_def
     restoreSort_def restoreSortColumn_def modelSorter_def modelWith_def pickySorter_def
     word_sle_eq word_sless_alt Let_def)












end
